theory Spec2Isabelle
  imports Main
begin

section \<open>Numbers and strings of the host language\<close>

text \<open>
  The ledger is JavaScript. Amounts and timestamps are JavaScript numbers; the model covers
  the integral ones and takes them as integers (\<open>int\<close>): a fractional amount has no value
  of this type. String concatenation with a number operand converts the number by its
  decimal rendering (from \<open>10^21\<close> on JavaScript writes an exponent instead of all the
  digits; the plain decimal rendering is kept here), and with a \<open>null\<close> operand by
  the text \<open>null\<close>.
\<close>

definition digit_char :: "nat \<Rightarrow> char" where
  "digit_char d = ''0123456789'' ! d"

fun string_of_nat :: "nat \<Rightarrow> string" where
  "string_of_nat n =
     (if n < 10 then [digit_char n]
      else string_of_nat (n div 10) @ [digit_char (n mod 10)])"

declare string_of_nat.simps [simp del]

definition String_number :: "int \<Rightarrow> string" where
  "String_number n =
     (if n < 0 then CHR ''-'' # string_of_nat (nat (- n)) else string_of_nat (nat n))"

text \<open>
  Addition of two numbers is the addition of doubles. On integral operands the exact sum is
  an integer, and the result is that integer rounded to a significand of 53 bits, to the
  nearest, ties to the even significand: the sum itself up to magnitude \<open>2^53\<close> (which is
  9007199254740992). The overflow to \<open>Infinity\<close> past \<open>2^1024\<close> is outside the model.
\<close>

fun bit_length :: "nat \<Rightarrow> nat" where
  "bit_length n = (if n = 0 then 0 else Suc (bit_length (n div 2)))"

declare bit_length.simps [simp del]

definition round_double :: "int \<Rightarrow> int" where
  "round_double n =
     (if \<bar>n\<bar> \<le> 9007199254740992 then n
      else
        (let m = nat \<bar>n\<bar>;
             k = bit_length m - 53;
             q = m div 2 ^ k;
             r = m mod 2 ^ k;
             q' = (if 2 ^ k < 2 * r \<or> (2 * r = 2 ^ k \<and> odd q) then q + 1 else q)
         in sgn n * int (q' * 2 ^ k)))"

definition Number_add :: "int \<Rightarrow> int \<Rightarrow> int" where
  "Number_add a b = round_double (a + b)"

definition String_address :: "string option \<Rightarrow> string" where
  "String_address a = (case a of None \<Rightarrow> ''null'' | Some s \<Rightarrow> s)"

text \<open>JavaScript truthiness of a nullable string: \<open>null\<close> and the empty string are falsy.\<close>

definition falsy :: "string option \<Rightarrow> bool" where
  "falsy a = (case a of None \<Rightarrow> True | Some s \<Rightarrow> s = [])"

section \<open>External libraries\<close>

text \<open>
  The digest (\<open>crypto.createHash('sha256').update(s).digest('hex')\<close>), the signature
  check of the elliptic-curve library (\<open>ec.keyFromPublic(k, 'hex').verify(h, sig)\<close>,
  which raises on a malformed key or signature: \<open>None\<close>), \<open>JSON.stringify\<close> on a list
  of transactions without their \<open>blockHash\<close> field, and the root of the repository's Merkle
  tree module are parameters of the model.
\<close>

type_synonym txWithoutBlockHash =
  "string option \<times> string \<times> int \<times> int \<times> string option \<times> string"

record env =
  sha256 :: "string \<Rightarrow> string"
  ec_verify :: "string \<Rightarrow> string \<Rightarrow> string \<Rightarrow> bool option"
  JSON_stringify :: "txWithoutBlockHash list \<Rightarrow> string"
  getRootHash :: "string list \<Rightarrow> string"

datatype error =
    MalformedTransaction    \<comment> \<open>"Transaction must include from and to address"\<close>
  | InvalidSignature        \<comment> \<open>"Cannot add invalid transaction to chain"\<close>
  | InvalidAmount           \<comment> \<open>"Transaction amount must be greater than 0"\<close>
  | InsufficientBalance     \<comment> \<open>"Not enough balance"\<close>
  | CacheFailure            \<comment> \<open>a rejected command of the key-value cache client\<close>
  | PersistenceFailure      \<comment> \<open>a rejected query of the relational store\<close>

section \<open>Transaction\<close>

text \<open>
  \<open>fromAddress\<close> is \<open>null\<close> for reward transactions; \<open>toAddress\<close> is a string at
  every construction site of the program. \<open>signature\<close> is \<open>null\<close> until signed.
\<close>

record transaction =
  fromAddress :: "string option"
  toAddress :: string
  amount :: int
  tx_timestamp :: int
  signature :: "string option"
  blockHash :: string
  tx_hash :: string

text \<open>The text that \<open>calculateHash\<close> feeds to the digest.\<close>

definition hashed_text :: "transaction \<Rightarrow> string" where
  "hashed_text tx =
     String_address (fromAddress tx) @ toAddress tx
     @ String_number (amount tx) @ String_number (tx_timestamp tx)"

definition Transaction_calculateHash :: "env \<Rightarrow> transaction \<Rightarrow> string" where
  "Transaction_calculateHash e tx = sha256 e (hashed_text tx)"

text \<open>The constructor: the fields as given, \<open>hash\<close> computed from them.\<close>

definition Transaction ::
  "env \<Rightarrow> string option \<Rightarrow> string \<Rightarrow> int \<Rightarrow> int \<Rightarrow> string option \<Rightarrow> string \<Rightarrow> transaction" where
  "Transaction e from to amt ts sig bh =
     (let this = \<lparr> fromAddress = from, toAddress = to, amount = amt, tx_timestamp = ts,
                   signature = sig, blockHash = bh, tx_hash = [] \<rparr>
      in this\<lparr> tx_hash := Transaction_calculateHash e this \<rparr>)"

text \<open>
  \<open>isValid\<close>: the body of the \<open>try\<close> is the library call, its \<open>catch\<close> returns
  \<open>false\<close>. The result is \<open>Inl\<close> when the method raises.
\<close>

definition isValid :: "env \<Rightarrow> transaction \<Rightarrow> error + bool" where
  "isValid e tx =
     (let hashToVerify = Transaction_calculateHash e tx in
      case fromAddress tx of
        None \<Rightarrow> Inr True
      | Some from \<Rightarrow>
          (case signature tx of
             None \<Rightarrow> Inr False
           | Some sig \<Rightarrow>
               if length sig = 0 then Inr False
               else (case ec_verify e from hashToVerify sig of
                       None \<Rightarrow> Inr False
                     | Some ok \<Rightarrow> Inr ok)))"

section \<open>Block\<close>

record block =
  index :: nat
  previousHash :: string
  b_timestamp :: int
  transactions :: "transaction list"
  b_difficulty :: nat
  merkleRoot :: string
  nonce :: nat
  b_hash :: string

definition withoutBlockHash :: "transaction \<Rightarrow> txWithoutBlockHash" where
  "withoutBlockHash tx =
     (fromAddress tx, toAddress tx, amount tx, tx_timestamp tx, signature tx, tx_hash tx)"

definition Block_calculateMerkleRoot :: "env \<Rightarrow> block \<Rightarrow> string" where
  "Block_calculateMerkleRoot e b =
     (if length (transactions b) = 0 then replicate 64 (CHR ''0'')
      else getRootHash e (map tx_hash (transactions b)))"

definition Block_calculateHash :: "env \<Rightarrow> block \<Rightarrow> string" where
  "Block_calculateHash e b =
     (let transactionsData = JSON_stringify e (map withoutBlockHash (transactions b))
      in sha256 e (previousHash b @ String_number (b_timestamp b) @ merkleRoot b
                   @ String_number (int (nonce b)) @ transactionsData))"

definition Block ::
  "env \<Rightarrow> nat \<Rightarrow> string \<Rightarrow> int \<Rightarrow> transaction list \<Rightarrow> nat \<Rightarrow> block" where
  "Block e i prev ts txs d =
     (let b0 = \<lparr> index = i, previousHash = prev, b_timestamp = ts, transactions = txs,
                 b_difficulty = d, merkleRoot = [], nonce = 0, b_hash = [] \<rparr>;
          b1 = b0\<lparr> merkleRoot := Block_calculateMerkleRoot e b0 \<rparr>
      in b1\<lparr> b_hash := Block_calculateHash e b1 \<rparr>)"

text \<open>
  The nonce search. \<open>hash.substring(0, d)\<close> is \<open>take d\<close> and
  \<open>Array(d + 1).join("0")\<close> is \<open>d\<close> zeros. The loop has no bound in the source; a search
  that never ends is the value \<open>None\<close>.
\<close>

partial_function (option) mineBlock :: "env \<Rightarrow> nat \<Rightarrow> block \<Rightarrow> block option" where
  "mineBlock e d b =
     (if take d (b_hash b) \<noteq> replicate d (CHR ''0'')
      then mineBlock e d
             (let b1 = b\<lparr> nonce := nonce b + 1 \<rparr>
              in b1\<lparr> b_hash := Block_calculateHash e b1 \<rparr>)
      else Some b)"

section \<open>External collaborators\<close>

text \<open>
  The key-value cache holds the balances (string keys \<open>wallet_balance_<address>\<close>, the
  stored text being a number the program wrote) and the hash \<open>pending_transactions\<close>
  (transaction hash to the serialized fields, in the order the cache returns them). The
  relational store is a log of the inserted rows. Every command sent to either may be
  rejected: \<open>faults\<close> lists, for the commands to come, whether each one fails; past its end
  they all succeed.
\<close>

type_synonym transactionData =
  "string option \<times> string \<times> int \<times> int \<times> string option"

datatype db_row =
    BlockRow string string int nat nat string nat
  | TransactionRow transaction
  | MerkleNodesRow string
  | MerkleProofRow string string

record world =
  balances :: "string \<rightharpoonup> int"
  pending_transactions :: "(string \<times> transactionData) list"
  locks :: "string list"
  released :: "string list"
  db :: "db_row list"
  faults :: "bool list"

definition command :: "world \<Rightarrow> bool \<times> world" where
  "command w = (case faults w of [] \<Rightarrow> (False, w) | f # fs \<Rightarrow> (f, w\<lparr> faults := fs \<rparr>))"

definition client_get :: "string \<Rightarrow> world \<Rightarrow> (error + int option) \<times> world" where
  "client_get k w =
     (case command w of
        (True, w') \<Rightarrow> (Inl CacheFailure, w')
      | (False, w') \<Rightarrow> (Inr (balances w' k), w'))"

definition client_set :: "string \<Rightarrow> int \<Rightarrow> world \<Rightarrow> (error + unit) \<times> world" where
  "client_set k v w =
     (case command w of
        (True, w') \<Rightarrow> (Inl CacheFailure, w')
      | (False, w') \<Rightarrow> (Inr (), w'\<lparr> balances := (balances w')(k \<mapsto> v) \<rparr>))"

fun hSet :: "string \<Rightarrow> 'v \<Rightarrow> (string \<times> 'v) list \<Rightarrow> (string \<times> 'v) list" where
  "hSet k v [] = [(k, v)]"
| "hSet k v (p # ps) = (if fst p = k then (k, v) # ps else p # hSet k v ps)"

definition hDel :: "string \<Rightarrow> (string \<times> 'v) list \<Rightarrow> (string \<times> 'v) list" where
  "hDel k ps = filter (\<lambda>p. fst p \<noteq> k) ps"

definition db_query :: "db_row \<Rightarrow> world \<Rightarrow> (error + unit) \<times> world" where
  "db_query row w =
     (case command w of
        (True, w') \<Rightarrow> (Inl PersistenceFailure, w')
      | (False, w') \<Rightarrow> (Inr (), w'\<lparr> db := db w' @ [row] \<rparr>))"

text \<open>
  Modelled from the spec: the lock module (\<open>./lock\<close>) is not part of the sources. The spec
  gives it as \<open>tryAcquire(key, ttl) -> bool\<close> and \<open>release(key)\<close>, mutual exclusion on a
  key. The time to live is not modelled. \<open>released\<close> logs every call of \<open>releaseLock\<close>.
\<close>

definition acquireLock :: "string \<Rightarrow> nat \<Rightarrow> world \<Rightarrow> bool \<times> world" where
  "acquireLock key ttl w =
     (if key \<in> set (locks w) then (False, w) else (True, w\<lparr> locks := key # locks w \<rparr>))"

definition releaseLock :: "string \<Rightarrow> world \<Rightarrow> world" where
  "releaseLock key w =
     w\<lparr> locks := removeAll key (locks w), released := released w @ [key] \<rparr>"

section \<open>Persistence of transactions and blocks\<close>

definition Transaction_save :: "transaction \<Rightarrow> world \<Rightarrow> (error + unit) \<times> world" where
  "Transaction_save tx w = db_query (TransactionRow tx) w"

definition savePendingToRedis :: "transaction \<Rightarrow> world \<Rightarrow> (error + unit) \<times> world" where
  "savePendingToRedis tx w =
     (let transactionData =
            (fromAddress tx, toAddress tx, amount tx, tx_timestamp tx, signature tx)
      in case command w of
           (True, w') \<Rightarrow> (Inl CacheFailure, w')
         | (False, w') \<Rightarrow>
             (Inr (), w'\<lparr> pending_transactions :=
                            hSet (tx_hash tx) transactionData (pending_transactions w') \<rparr>))"

text \<open>
  The loop of \<open>loadPendingTransactionsFromRedis\<close> over the entries of the hash: a new
  transaction from the stored fields, its \<open>hash\<close> then set to the key.
\<close>

definition transactionObjects :: "env \<Rightarrow> (string \<times> transactionData) list \<Rightarrow> transaction list" where
  "transactionObjects e entries =
     map (\<lambda>(h, (from, to, amt, ts, sig)).
            (Transaction e from to amt ts sig [])\<lparr> tx_hash := h \<rparr>) entries"

definition loadPendingTransactionsFromRedis ::
  "env \<Rightarrow> world \<Rightarrow> (error + transaction list) \<times> world" where
  "loadPendingTransactionsFromRedis e w =
     (case command w of
        (True, w') \<Rightarrow> (Inl CacheFailure, w')
      | (False, w') \<Rightarrow> (Inr (transactionObjects e (pending_transactions w')), w'))"

definition removePendingTransactionFromRedis :: "string \<Rightarrow> world \<Rightarrow> (error + unit) \<times> world" where
  "removePendingTransactionFromRedis h w =
     (case command w of
        (True, w') \<Rightarrow> (Inl CacheFailure, w')
      | (False, w') \<Rightarrow>
          (Inr (), w'\<lparr> pending_transactions := hDel h (pending_transactions w') \<rparr>))"

text \<open>
  \<open>Block.save\<close>: the block row, then for each transaction the back-reference
  \<open>tx.blockHash = this.hash\<close> and its row, then the Merkle nodes and one proof row for each
  transaction. The first rejected query ends it. The transactions are mutated in place, so
  the block comes back with them.
\<close>

fun save_transactions ::
  "string \<Rightarrow> transaction list \<Rightarrow> world \<Rightarrow> (error + unit) \<times> transaction list \<times> world" where
  "save_transactions h [] w = (Inr (), [], w)"
| "save_transactions h (tx # txs) w =
     (let tx' = tx\<lparr> blockHash := h \<rparr> in
      case Transaction_save tx' w of
        (Inl err, w') \<Rightarrow> (Inl err, tx' # txs, w')
      | (Inr u, w') \<Rightarrow>
          (case save_transactions h txs w' of (r, txs', w'') \<Rightarrow> (r, tx' # txs', w'')))"

fun saveMerkleProofs :: "string \<Rightarrow> transaction list \<Rightarrow> world \<Rightarrow> (error + unit) \<times> world" where
  "saveMerkleProofs h [] w = (Inr (), w)"
| "saveMerkleProofs h (tx # txs) w =
     (case db_query (MerkleProofRow h (tx_hash tx)) w of
        (Inl err, w') \<Rightarrow> (Inl err, w')
      | (Inr u, w') \<Rightarrow> saveMerkleProofs h txs w')"

definition Block_save :: "block \<Rightarrow> world \<Rightarrow> (error + unit) \<times> block \<times> world" where
  "Block_save b w =
     (case db_query (BlockRow (b_hash b) (previousHash b) (b_timestamp b) (nonce b)
                       (b_difficulty b) (merkleRoot b) (index b)) w of
        (Inl err, w1) \<Rightarrow> (Inl err, b, w1)
      | (Inr u, w1) \<Rightarrow>
          (case save_transactions (b_hash b) (transactions b) w1 of
             (Inl err, txs, w2) \<Rightarrow> (Inl err, b\<lparr> transactions := txs \<rparr>, w2)
           | (Inr u, txs, w2) \<Rightarrow>
               (let b' = b\<lparr> transactions := txs \<rparr> in
                case db_query (MerkleNodesRow (b_hash b')) w2 of
                  (Inl err, w3) \<Rightarrow> (Inl err, b', w3)
                | (Inr u, w3) \<Rightarrow>
                    (case saveMerkleProofs (b_hash b') (transactions b') w3 of
                       (r, w4) \<Rightarrow> (r, b', w4)))))"

section \<open>Blockchain\<close>

text \<open>
  The methods are asynchronous. Each is modelled as one uninterrupted run, its commands to
  the cache and the store in program order; the interleaving of concurrent invocations at
  the points where they wait is outside the model.
\<close>

record ledger =
  chain :: "block list"
  difficulty :: nat
  pendingTransactions :: "transaction list"
  miningReward :: int
  transactionThreshold :: nat
  minerAddress :: string
  genesisAddress :: string

text \<open>The fields as the constructor sets them, before the genesis block is created.\<close>

definition Blockchain :: ledger where
  "Blockchain =
     \<lparr> chain = [], difficulty = 0, pendingTransactions = [], miningReward = 100,
       transactionThreshold = 2, minerAddress = ''miner-address'',
       genesisAddress = ''genesis-address'' \<rparr>"

definition balance_key :: "string option \<Rightarrow> string" where
  "balance_key address = ''wallet_balance_'' @ String_address address"

text \<open>The balance the store holds for an address: 0 where it has no entry.\<close>

definition stored_balance :: "world \<Rightarrow> string option \<Rightarrow> int" where
  "stored_balance w address =
     (case balances w (balance_key address) of None \<Rightarrow> 0 | Some v \<Rightarrow> v)"

text \<open>
  \<open>updateWalletBalance\<close> catches and logs whatever the cache raises: it never raises itself.
\<close>

definition updateWalletBalance ::
  "string option \<Rightarrow> int \<Rightarrow> world \<Rightarrow> (error + unit) \<times> world" where
  "updateWalletBalance address amt w =
     (case client_get (balance_key address) w of
        (Inl err, w1) \<Rightarrow> (Inr (), w1)
      | (Inr got, w1) \<Rightarrow>
          (let currentBalance = (case got of None \<Rightarrow> 0 | Some v \<Rightarrow> v);
               newBalance = Number_add currentBalance amt
           in case client_set (balance_key address) newBalance w1 of
                (Inl err, w2) \<Rightarrow> (Inr (), w2)
              | (Inr u, w2) \<Rightarrow> (Inr (), w2)))"

definition getBalanceOfAddress :: "string option \<Rightarrow> world \<Rightarrow> (error + int) \<times> world" where
  "getBalanceOfAddress address w =
     (case client_get (balance_key address) w of
        (Inl err, w1) \<Rightarrow> (Inr 0, w1)
      | (Inr got, w1) \<Rightarrow> (Inr (case got of None \<Rightarrow> 0 | Some v \<Rightarrow> v), w1))"

text \<open>
  \<open>addTransaction\<close> has no \<open>return\<close> statement: its value on success is \<open>undefined\<close>,
  here \<open>None\<close>; \<open>Some h\<close> would be a returned string.
\<close>

definition addTransaction ::
  "env \<Rightarrow> transaction \<Rightarrow> ledger \<Rightarrow> world \<Rightarrow> (error + string option) \<times> ledger \<times> world" where
  "addTransaction e tx bc w =
     (if falsy (fromAddress tx) \<or> toAddress tx = [] then (Inl MalformedTransaction, bc, w)
      else case isValid e tx of
        Inl err \<Rightarrow> (Inl err, bc, w)
      | Inr False \<Rightarrow> (Inl InvalidSignature, bc, w)
      | Inr True \<Rightarrow>
          if amount tx \<le> 0 then (Inl InvalidAmount, bc, w)
          else case getBalanceOfAddress (fromAddress tx) w of
            (Inl err, w1) \<Rightarrow> (Inl err, bc, w1)
          | (Inr balance, w1) \<Rightarrow>
              if balance < amount tx then (Inl InsufficientBalance, bc, w1)
              else case updateWalletBalance (fromAddress tx) (- amount tx) w1 of
                (Inl err, w2) \<Rightarrow> (Inl err, bc, w2)
              | (Inr u, w2) \<Rightarrow>
                  (case updateWalletBalance (Some (toAddress tx)) (amount tx) w2 of
                     (Inl err, w3) \<Rightarrow> (Inl err, bc, w3)
                   | (Inr u, w3) \<Rightarrow>
                       (case savePendingToRedis tx w3 of
                          (Inl err, w4) \<Rightarrow> (Inl err, bc, w4)
                        | (Inr u, w4) \<Rightarrow>
                            (Inr None,
                             bc\<lparr> pendingTransactions := pendingTransactions bc @ [tx] \<rparr>,
                             w4))))"

text \<open>
  \<open>createGenesisBlockWithReward\<close>, which the constructor starts: the reward transaction, the
  block at index 0 after the hash \<open>"0"\<close>, mined, appended and saved, then the balance of the
  genesis address alone is updated. The clock readings are arguments.
\<close>

definition createGenesisBlockWithReward ::
  "env \<Rightarrow> string \<Rightarrow> int \<Rightarrow> int \<Rightarrow> int \<Rightarrow> ledger \<Rightarrow> world \<Rightarrow> ((error + unit) \<times> ledger \<times> world) option" where
  "createGenesisBlockWithReward e genesisAddr initialReward now1 now2 bc w =
     (let rewardTx0 = Transaction e None genesisAddr initialReward now1 None [];
          rewardTx = rewardTx0\<lparr> tx_hash := Transaction_calculateHash e rewardTx0,
                                 signature := None \<rparr>;
          genesisBlock = Block e 0 ''0'' now2 [rewardTx] (difficulty bc)
      in case mineBlock e (difficulty bc) genesisBlock of
           None \<Rightarrow> None
         | Some mined \<Rightarrow>
             (case Block_save mined w of
                (r, saved, w1) \<Rightarrow>
                  (let bc1 = bc\<lparr> chain := chain bc @ [saved] \<rparr>
                   in case r of
                        Inl err \<Rightarrow> Some (Inl err, bc1, w1)
                      | Inr u \<Rightarrow>
                          (case updateWalletBalance (Some genesisAddr) initialReward w1 of
                             (r', w2) \<Rightarrow> Some (r', bc1, w2)))))"

text \<open>
  The loop after \<open>block.save()\<close> in \<open>minePendingTransactions\<close>: for each transaction of
  the block, delete it from the pending hash, then update the two balances.
\<close>

fun clearMined :: "transaction list \<Rightarrow> world \<Rightarrow> (error + unit) \<times> world" where
  "clearMined [] w = (Inr (), w)"
| "clearMined (tx # txs) w =
     (case removePendingTransactionFromRedis (tx_hash tx) w of
        (Inl err, w1) \<Rightarrow> (Inl err, w1)
      | (Inr u, w1) \<Rightarrow>
          (case updateWalletBalance (fromAddress tx) (- amount tx) w1 of
             (Inl err, w2) \<Rightarrow> (Inl err, w2)
           | (Inr u, w2) \<Rightarrow>
               (case updateWalletBalance (Some (toAddress tx)) (amount tx) w2 of
                  (Inl err, w3) \<Rightarrow> (Inl err, w3)
                | (Inr u, w3) \<Rightarrow> clearMined txs w3)))"

text \<open>
  The \<open>try\<close> block of \<open>minePendingTransactions\<close>. The two readings of the clock
  (\<open>Date.now()\<close> in the reward transaction and in the block) are arguments. The block in the
  chain and the block being saved are one object, and the first transactions of
  \<open>this.pendingTransactions\<close> are the objects in the block: what \<open>save\<close> writes into them
  shows in both. \<open>None\<close>: the nonce search never returns.
\<close>

definition mine_try ::
  "env \<Rightarrow> string \<Rightarrow> int \<Rightarrow> int \<Rightarrow> ledger \<Rightarrow> world \<Rightarrow> ((error + unit) \<times> ledger \<times> world) option" where
  "mine_try e miningRewardAddress now1 now2 bc w =
     (case loadPendingTransactionsFromRedis e w of
        (Inl err, w1) \<Rightarrow> Some (Inl err, bc, w1)
      | (Inr loaded, w1) \<Rightarrow>
          (let bc1 = bc\<lparr> pendingTransactions := loaded \<rparr>;
               lastBlock = (if length (chain bc1) > 0 then Some (last (chain bc1)) else None);
               batch = take (transactionThreshold bc1) (pendingTransactions bc1)
           in if length batch = 0 then Some (Inr (), bc1, w1)
              else
                (let rewardTx0 = Transaction e None miningRewardAddress (miningReward bc1) now1 None [];
                     rewardTx = rewardTx0\<lparr> tx_hash := Transaction_calculateHash e rewardTx0 \<rparr>;
                     blockTransactions = batch @ [rewardTx];
                     block = Block e (case lastBlock of None \<Rightarrow> 0 | Some lb \<Rightarrow> index lb + 1)
                                     (case lastBlock of None \<Rightarrow> [] | Some lb \<Rightarrow> b_hash lb)
                                     now2 blockTransactions (difficulty bc1)
                 in case mineBlock e (difficulty bc1) block of
                      None \<Rightarrow> None
                    | Some mined \<Rightarrow>
                        (case Block_save mined w1 of
                           (r, saved, w2) \<Rightarrow>
                             (let bc2 = bc1\<lparr> chain := chain bc1 @ [saved],
                                             pendingTransactions :=
                                               take (length batch) (transactions saved)
                                               @ drop (length batch) loaded \<rparr>
                              in case r of
                                   Inl err \<Rightarrow> Some (Inl err, bc2, w2)
                                 | Inr u \<Rightarrow>
                                     (case clearMined (transactions saved) w2 of
                                        (r', w3) \<Rightarrow> Some (r', bc2, w3)))))))"

text \<open>
  \<open>minePendingTransactions\<close>: the lock, the \<open>try\<close> block, the \<open>catch\<close> that logs
  and swallows the error, the \<open>finally\<close> that releases the lock.
\<close>

definition minePendingTransactions ::
  "env \<Rightarrow> string \<Rightarrow> int \<Rightarrow> int \<Rightarrow> ledger \<Rightarrow> world \<Rightarrow> ((error + unit) \<times> ledger \<times> world) option" where
  "minePendingTransactions e miningRewardAddress now1 now2 bc w =
     (case acquireLock ''miningLock'' 10000 w of
        (False, w0) \<Rightarrow> Some (Inr (), bc, w0)
      | (True, w0) \<Rightarrow>
          (case mine_try e miningRewardAddress now1 now2 bc w0 of
             None \<Rightarrow> None
           | Some (r, bc', w') \<Rightarrow> Some (Inr (), bc', releaseLock ''miningLock'' w')))"

text \<open>
  \<open>isChainValid\<close>: the loop runs over the indices from 1, comparing each block with the
  one before it.
\<close>

fun isChainValid_loop :: "env \<Rightarrow> block \<Rightarrow> block list \<Rightarrow> bool" where
  "isChainValid_loop e previousBlock [] = True"
| "isChainValid_loop e previousBlock (currentBlock # rest) =
     (if b_hash currentBlock \<noteq> Block_calculateHash e currentBlock then False
      else if previousHash currentBlock \<noteq> b_hash previousBlock then False
      else if merkleRoot currentBlock \<noteq> Block_calculateMerkleRoot e currentBlock then False
      else isChainValid_loop e currentBlock rest)"

definition isChainValid :: "env \<Rightarrow> block list \<Rightarrow> bool" where
  "isChainValid e ch = (case ch of [] \<Rightarrow> True | b0 # rest \<Rightarrow> isChainValid_loop e b0 rest)"

section \<open>Notions used in the properties\<close>

text \<open>The number of leading zero characters of a hash.\<close>

definition leadingZeros :: "string \<Rightarrow> nat" where
  "leadingZeros h = length (takeWhile (\<lambda>c. c = CHR ''0'') h)"

text \<open>Reading a decimal numeral back, to show that the rendering loses nothing.\<close>

definition digits_value :: "string \<Rightarrow> nat" where
  "digits_value s = foldl (\<lambda>a c. 10 * a + (of_char c - 48)) 0 s"

text \<open>
  Two idealisations of the external cryptography, each on the values at hand only: the
  digest does not collide on two given texts, and a signature that verifies under a key
  for one of two different digests does not verify for the other.
\<close>

definition collision_free :: "env \<Rightarrow> string \<Rightarrow> string \<Rightarrow> bool" where
  "collision_free e x y = (sha256 e x = sha256 e y \<longrightarrow> x = y)"

definition verifies_one :: "env \<Rightarrow> string \<Rightarrow> string \<Rightarrow> string \<Rightarrow> string \<Rightarrow> bool" where
  "verifies_one e k sig h h' =
     (h \<noteq> h' \<longrightarrow> \<not> (ec_verify e k h sig = Some True \<and> ec_verify e k h' sig = Some True))"

text \<open>The cache and the store accept the next \<open>n\<close> commands.\<close>

definition accepted :: "nat \<Rightarrow> world \<Rightarrow> bool" where
  "accepted n w = (\<forall>f \<in> set (take n (faults w)). \<not> f)"

text \<open>
  The balance map that one successful \<open>updateWalletBalance\<close> writes, and the balance map
  with the amount added exactly at the address.
\<close>

definition writtenBalances :: "(string \<rightharpoonup> int) \<Rightarrow> string option \<Rightarrow> int \<Rightarrow> (string \<rightharpoonup> int)" where
  "writtenBalances B address d =
     B(balance_key address \<mapsto>
         Number_add (case B (balance_key address) of None \<Rightarrow> 0 | Some v \<Rightarrow> v) d)"

definition applyDelta :: "(string \<rightharpoonup> int) \<Rightarrow> string option \<Rightarrow> int \<Rightarrow> (string \<rightharpoonup> int)" where
  "applyDelta B address d =
     B(balance_key address \<mapsto> (case B (balance_key address) of None \<Rightarrow> 0 | Some v \<Rightarrow> v) + d)"

text \<open>The range of integers on which the addition of doubles is exact.\<close>

definition exact_range :: "int \<Rightarrow> bool" where
  "exact_range n = (\<bar>n\<bar> \<le> 9007199254740992)"

text \<open>
  The fields of an entry of the pending hash in the order of a transaction without its
  \<open>blockHash\<close>: the stored fields, then the key as the hash.
\<close>

definition storedFields :: "string \<times> transactionData \<Rightarrow> txWithoutBlockHash" where
  "storedFields entry =
     (case entry of (h, (from, to, amt, ts, sig)) \<Rightarrow> (from, to, amt, ts, sig, h))"

text \<open>What a world holds about locks: the keys held and the log of releases.\<close>

definition lock_state :: "world \<Rightarrow> string list \<times> string list" where
  "lock_state w = (locks w, released w)"

section \<open>Concrete inputs\<close>

text \<open>
  A small instance of the external libraries, on which the model runs: the digest reverses
  its text, the signature of a digest \<open>h\<close> under the key \<open>k\<close> is the text \<open>k @ h\<close>, the
  key \<open>malformed\<close> makes the library raise, the serialization is empty and the Merkle root
  is the concatenation of the leaves.
\<close>

definition test_env :: env where
  "test_env =
     \<lparr> sha256 = rev,
       ec_verify = (\<lambda>k h sig. if k = ''malformed'' then None else Some (sig = k @ h)),
       JSON_stringify = (\<lambda>txs. []),
       getRootHash = concat \<rparr>"

definition reward_tx :: transaction where
  "reward_tx = Transaction test_env None ''miner'' 100 7 None []"

definition unsigned_tx :: transaction where
  "unsigned_tx = Transaction test_env (Some ''alice'') ''bob'' 50 1 None []"

definition signed_tx :: transaction where
  "signed_tx = unsigned_tx\<lparr> signature := Some (''alice'' @ tx_hash unsigned_tx) \<rparr>"

text \<open>
  The ledger after the constructor, its genesis block created at the clock readings 3 and 4
  and saved.
\<close>

definition genesis_block :: block where
  "genesis_block =
     (let b = Block test_env 0 ''0'' 4
                [Transaction test_env None ''genesis-address'' 1000000 3 None []] 0
      in b\<lparr> transactions := map (\<lambda>tx. tx\<lparr> blockHash := b_hash b \<rparr>) (transactions b) \<rparr>)"

definition constructed :: ledger where
  "constructed = Blockchain\<lparr> chain := [genesis_block] \<rparr>"

definition empty_world :: world where
  "empty_world =
     \<lparr> balances = Map.empty, pending_transactions = [], locks = [], released = [],
       db = [], faults = [] \<rparr>"

definition funded_world :: world where
  "funded_world = empty_world\<lparr> balances := [''wallet_balance_alice'' \<mapsto> 100] \<rparr>"

definition poor_world :: world where
  "poor_world = empty_world\<lparr> balances := [''wallet_balance_alice'' \<mapsto> 10] \<rparr>"

text \<open>A genesis block whose stored hash and Merkle root were overwritten.\<close>

definition tampered_genesis :: block where
  "tampered_genesis =
     (Block test_env 0 ''0'' 5 [reward_tx] 0)\<lparr> merkleRoot := ''forged'', b_hash := ''forged'' \<rparr>"

text \<open>
  A transfer of 1, signed, and a store in which the recipient's balance is \<open>2^53\<close>.
\<close>

definition one_tx :: transaction where
  "one_tx =
     (Transaction test_env (Some ''alice'') ''bob'' 1 1 None [])
       \<lparr> signature := Some ''alice11bobecila'' \<rparr>"

definition large_world :: world where
  "large_world =
     empty_world\<lparr> balances := [''wallet_balance_alice'' \<mapsto> 100,
                                 ''wallet_balance_bob'' \<mapsto> 9007199254740992] \<rparr>"

text \<open>A funded store whose third command, the write of the debit, is rejected.\<close>

definition debit_rejected :: world where
  "debit_rejected = funded_world\<lparr> faults := [False, False, True] \<rparr>"


text \<open>
  A store with two pending transactions, the same with the mining lock held by another
  invocation, and the same with its next command rejected.
\<close>

definition pool_world :: world where
  "pool_world =
     funded_world\<lparr> pending_transactions :=
       [(''105bobecila'', (Some ''alice'', ''bob'', 50, 1, Some ''alice105bobecila'')),
        (''202loracbob'', (Some ''bob'', ''carol'', 20, 2, Some ''bob202loracbob''))] \<rparr>"

definition busy_world :: world where
  "busy_world = pool_world\<lparr> locks := [''miningLock''] \<rparr>"

definition failing_world :: world where
  "failing_world = pool_world\<lparr> faults := [True] \<rparr>"

text \<open>
  A store with three pending transactions; the constructed ledger with its threshold set
  to 0; a digest that never starts with a zero, and the constructed ledger at difficulty 1.
\<close>

definition three_pending :: world where
  "three_pending =
     funded_world\<lparr> pending_transactions :=
       [(''105bobecila'', (Some ''alice'', ''bob'', 50, 1, Some ''alice105bobecila'')),
        (''202loracbob'', (Some ''bob'', ''carol'', 20, 2, Some ''bob202loracbob'')),
        (''35evadlorac'', (Some ''carol'', ''dave'', 5, 3, Some ''carol35evadlorac''))] \<rparr>"

definition zero_threshold :: ledger where
  "zero_threshold = constructed\<lparr> transactionThreshold := 0 \<rparr>"

definition stuck_env :: env where
  "stuck_env = test_env\<lparr> sha256 := (\<lambda>s. ''ff'') \<rparr>"

definition hard_ledger :: ledger where
  "hard_ledger = constructed\<lparr> difficulty := 1 \<rparr>"

section \<open>Properties\<close>

lemmas test_defs =
  test_env_def reward_tx_def unsigned_tx_def signed_tx_def Transaction_def
  Transaction_calculateHash_def hashed_text_def String_address_def String_number_def
  string_of_nat.simps digit_char_def

subsection \<open>The cache client\<close>

lemma command_eq:
  "command w = (faults w \<noteq> [] \<and> hd (faults w), w\<lparr> faults := tl (faults w) \<rparr>)"
  by (simp add: command_def split: list.splits)

lemma client_get_cases:
  "client_get k w = (r, w') \<Longrightarrow>
     w' = w\<lparr> faults := tl (faults w) \<rparr> \<and> (r = Inl CacheFailure \<or> r = Inr (balances w k))"
  by (auto simp: client_get_def command_eq split: bool.splits if_splits)

lemma getBalanceOfAddress_cases:
  "getBalanceOfAddress a w = (r, w') \<Longrightarrow>
     w' = w\<lparr> faults := tl (faults w) \<rparr> \<and> (r = Inr 0 \<or> r = Inr (stored_balance w a))"
  by (auto simp: getBalanceOfAddress_def stored_balance_def
      split: prod.splits sum.splits option.splits dest!: client_get_cases)

lemma round_double_exact: "exact_range n \<Longrightarrow> round_double n = n"
  by (simp add: round_double_def exact_range_def)

lemma Number_add_exact: "exact_range (a + b) \<Longrightarrow> Number_add a b = a + b"
  by (simp add: Number_add_def round_double_exact)

text \<open>Past the exact range the sum is rounded: \<open>2^53 + 1\<close> is \<open>2^53\<close>.\<close>

lemma bit_length_above: "bit_length 9007199254740993 = 54"
  by (simp add: bit_length.simps)

lemma Number_add_rounds: "Number_add 9007199254740992 1 = 9007199254740992"
  by (simp add: Number_add_def round_double_def bit_length_above Let_def)

lemma command_accepted:
  "accepted (Suc n) w \<Longrightarrow> command w = (False, w\<lparr> faults := drop 1 (faults w) \<rparr>)"
  by (cases "faults w") (auto simp: accepted_def command_eq)

lemma accepted_drop:
  "accepted (k + n) w \<Longrightarrow> faults w' = drop k (faults w) \<Longrightarrow> accepted n w'"
proof -
  assume a: "accepted (k + n) w" and f: "faults w' = drop k (faults w)"
  have "set (take n (drop k (faults w))) \<subseteq> set (take (k + n) (faults w))"
    by (simp add: take_drop add.commute set_drop_subset)
  with a f show ?thesis by (auto simp: accepted_def)
qed

lemma getBalanceOfAddress_accepted:
  "accepted (Suc n) w \<Longrightarrow>
     getBalanceOfAddress a w = (Inr (stored_balance w a), w\<lparr> faults := drop 1 (faults w) \<rparr>)"
  by (simp add: getBalanceOfAddress_def client_get_def command_accepted stored_balance_def
      split: option.splits)

lemma updateWalletBalance_accepted:
  assumes "accepted (Suc (Suc n)) w"
  shows "updateWalletBalance a d w =
           (Inr (), w\<lparr> balances := writtenBalances (balances w) a d,
                       faults := drop 2 (faults w) \<rparr>)"
proof -
  define w1 where "w1 = w\<lparr> faults := drop 1 (faults w) \<rparr>"
  from assms have 1: "command w = (False, w1)"
    unfolding w1_def by (rule command_accepted)
  from assms have "accepted (Suc n) w1"
    by (auto intro: accepted_drop[where k = 1] simp: w1_def)
  from command_accepted[OF this]
  have 2: "command w1 = (False, w\<lparr> faults := drop 2 (faults w) \<rparr>)"
    by (simp add: w1_def numeral_2_eq_2)
  have 3: "balances w1 = balances w" by (simp add: w1_def)
  show ?thesis
    by (simp add: updateWalletBalance_def client_get_def client_set_def 1 2 3
        writtenBalances_def split: option.splits)
qed

text \<open>
  The two commands on the pending hash, read as a map: \<open>hSet\<close> binds the key to the
  value and \<open>hDel\<close> removes the key, the other keys staying as they are.
\<close>

lemma map_of_hSet: "map_of (hSet k v ps) = (map_of ps)(k \<mapsto> v)"
  by (induction ps) (auto simp: fun_eq_iff)

lemma map_of_hDel: "map_of (hDel k ps) = (map_of ps)(k := None)"
  by (induction ps) (auto simp: hDel_def fun_eq_iff)

lemma savePendingToRedis_accepted:
  "accepted (Suc n) w \<Longrightarrow>
     savePendingToRedis tx w =
       (Inr (), w\<lparr> pending_transactions :=
                     hSet (tx_hash tx)
                       (fromAddress tx, toAddress tx, amount tx, tx_timestamp tx, signature tx)
                       (pending_transactions w),
                   faults := drop 1 (faults w) \<rparr>)"
  by (simp add: savePendingToRedis_def command_accepted)

subsection \<open>Transaction validity\<close>

text \<open>
  C6. \<open>isValid\<close> never raises. It is true when \<open>fromAddress\<close> is \<open>null\<close>, whatever the
  signature; with a sender it is false when no signature is present; otherwise it is the
  verdict of the library on the sender as public key and the recomputed content hash, and
  false when the library raises.
\<close>

theorem isValid_cases:
  "(\<exists>b. isValid e tx = Inr b)
   \<and> (fromAddress tx = None \<longrightarrow> isValid e tx = Inr True)
   \<and> (fromAddress tx \<noteq> None \<and> falsy (signature tx) \<longrightarrow> isValid e tx = Inr False)
   \<and> (\<forall>from sig. fromAddress tx = Some from \<and> signature tx = Some sig \<and> sig \<noteq> [] \<longrightarrow>
        isValid e tx =
          Inr (case ec_verify e from (Transaction_calculateHash e tx) sig of
                 None \<Rightarrow> False | Some ok \<Rightarrow> ok))"
  by (auto simp: isValid_def falsy_def split: option.splits)

theorem isValid_cases_witness:
  "fromAddress reward_tx = None \<and> isValid test_env reward_tx = Inr True
   \<and> fromAddress unsigned_tx \<noteq> None \<and> falsy (signature unsigned_tx)
   \<and> isValid test_env unsigned_tx = Inr False
   \<and> fromAddress signed_tx = Some ''alice'' \<and> signature signed_tx = Some ''alice105bobecila''
   \<and> isValid test_env signed_tx = Inr True"
proof -
  have r: "fromAddress reward_tx = None" by (simp add: test_defs)
  have u: "fromAddress unsigned_tx \<noteq> None \<and> falsy (signature unsigned_tx)"
    by (simp add: falsy_def test_defs)
  have s: "fromAddress signed_tx = Some ''alice'' \<and> signature signed_tx = Some ''alice105bobecila''
           \<and> ''alice105bobecila'' \<noteq> []"
    by (simp add: test_defs)
  have v: "ec_verify test_env ''alice'' (Transaction_calculateHash test_env signed_tx)
             ''alice105bobecila'' = Some True"
    by (simp add: test_defs)
  from isValid_cases[of test_env reward_tx] r
  have 1: "isValid test_env reward_tx = Inr True" by blast
  from isValid_cases[of test_env unsigned_tx] u
  have 2: "isValid test_env unsigned_tx = Inr False" by blast
  from isValid_cases[of test_env signed_tx] s
  have "isValid test_env signed_tx =
          Inr (case ec_verify test_env ''alice'' (Transaction_calculateHash test_env signed_tx)
                      ''alice105bobecila'' of None \<Rightarrow> False | Some ok \<Rightarrow> ok)" by blast
  with v have 3: "isValid test_env signed_tx = Inr True" by simp
  from r u s 1 2 3 show ?thesis by blast
qed

lemma digit_char_code: "d < 10 \<Longrightarrow> of_char (digit_char d) = 48 + d"
proof -
  assume "d < 10"
  then have "d \<in> {0, 1, 2, 3, 4, 5, 6, 7, 8, 9}" by auto
  then show ?thesis by (auto simp: digit_char_def)
qed

lemma digits_value_snoc: "digits_value (s @ [c]) = 10 * digits_value s + (of_char c - 48)"
  by (simp add: digits_value_def)

lemma digits_value_string_of_nat: "digits_value (string_of_nat n) = n"
proof (induction n rule: string_of_nat.induct)
  case (1 n)
  show ?case
  proof (cases "n < 10")
    case True
    then show ?thesis
      by (subst string_of_nat.simps) (simp add: digits_value_def digit_char_code)
  next
    case False
    with 1 have "digits_value (string_of_nat (n div 10)) = n div 10" by simp
    with False show ?thesis
      by (subst string_of_nat.simps) (simp add: digits_value_snoc digit_char_code)
  qed
qed

lemma string_of_nat_inj: "string_of_nat m = string_of_nat n \<Longrightarrow> m = n"
  by (metis digits_value_string_of_nat)

lemma digit_char_not_minus: "d < 10 \<Longrightarrow> digit_char d \<noteq> CHR ''-''"
  using digit_char_code[of d] by auto

lemma string_of_nat_hd: "string_of_nat n \<noteq> [] \<and> hd (string_of_nat n) \<noteq> CHR ''-''"
proof (induction n rule: string_of_nat.induct)
  case (1 n)
  show ?case
  proof (cases "n < 10")
    case True
    then show ?thesis by (subst (1 2) string_of_nat.simps) (simp add: digit_char_not_minus)
  next
    case False
    with 1 have "string_of_nat (n div 10) \<noteq> [] \<and> hd (string_of_nat (n div 10)) \<noteq> CHR ''-''"
      by simp
    with False show ?thesis by (subst (1 2) string_of_nat.simps) simp
  qed
qed

lemma String_number_inj: "String_number a = String_number b \<Longrightarrow> a = b"
proof -
  assume eq: "String_number a = String_number b"
  have neg: "\<And>m n. CHR ''-'' # string_of_nat m \<noteq> string_of_nat n"
    using string_of_nat_hd by (metis list.sel(1))
  show ?thesis
  proof (cases "a < 0")
    case True
    show ?thesis
    proof (cases "b < 0")
      case True
      with \<open>a < 0\<close> eq have "nat (- a) = nat (- b)"
        by (simp add: String_number_def string_of_nat_inj)
      with True \<open>a < 0\<close> show ?thesis by simp
    next
      case False
      with \<open>a < 0\<close> eq neg show ?thesis by (simp add: String_number_def)
    qed
  next
    case False
    show ?thesis
    proof (cases "b < 0")
      case True
      with False eq neg[of "nat (- b)" "nat a"] show ?thesis by (simp add: String_number_def)
    next
      case b: False
      with False eq have "nat a = nat b" by (simp add: String_number_def string_of_nat_inj)
      with False b show ?thesis by simp
    qed
  qed
qed

lemma hashed_text_amount:
  "hashed_text (tx\<lparr> amount := a' \<rparr>) = hashed_text tx \<Longrightarrow> a' = amount tx"
  by (simp add: hashed_text_def String_number_inj)

text \<open>
  C9. The content hash depends on \<open>fromAddress\<close>, \<open>toAddress\<close>, \<open>amount\<close> and
  \<open>timestamp\<close> only: transactions that agree on the four have the same hash, and writing
  \<open>signature\<close> or \<open>blockHash\<close> does not change it. The hashed text determines the
  amount, so for a transaction with a sender and a signature that \<open>isValid\<close> accepts,
  changing the amount makes \<open>isValid\<close> false, provided the digest does not collide on
  the two hashed texts and the signature does not verify for both digests.
\<close>

theorem calculateHash_four_fields:
  "(fromAddress a = fromAddress b \<and> toAddress a = toAddress b \<and> amount a = amount b
      \<and> tx_timestamp a = tx_timestamp b
      \<longrightarrow> Transaction_calculateHash e a = Transaction_calculateHash e b)
   \<and> Transaction_calculateHash e (tx\<lparr> signature := s \<rparr>) = Transaction_calculateHash e tx
   \<and> Transaction_calculateHash e (tx\<lparr> blockHash := h \<rparr>) = Transaction_calculateHash e tx
   \<and> (fromAddress tx = Some k \<and> signature tx = Some sig \<and> isValid e tx = Inr True
        \<and> a' \<noteq> amount tx
        \<and> collision_free e (hashed_text tx) (hashed_text (tx\<lparr> amount := a' \<rparr>))
        \<and> verifies_one e k sig (Transaction_calculateHash e tx)
             (Transaction_calculateHash e (tx\<lparr> amount := a' \<rparr>))
      \<longrightarrow> isValid e (tx\<lparr> amount := a' \<rparr>) = Inr False)"
proof -
  have 1: "fromAddress a = fromAddress b \<and> toAddress a = toAddress b \<and> amount a = amount b
      \<and> tx_timestamp a = tx_timestamp b
      \<longrightarrow> Transaction_calculateHash e a = Transaction_calculateHash e b"
    by (simp add: Transaction_calculateHash_def hashed_text_def)
  have 2: "Transaction_calculateHash e (tx\<lparr> signature := s \<rparr>) = Transaction_calculateHash e tx"
    by (simp add: Transaction_calculateHash_def hashed_text_def)
  have 3: "Transaction_calculateHash e (tx\<lparr> blockHash := h \<rparr>) = Transaction_calculateHash e tx"
    by (simp add: Transaction_calculateHash_def hashed_text_def)
  have 4: "isValid e (tx\<lparr> amount := a' \<rparr>) = Inr False"
    if k: "fromAddress tx = Some k" and sg: "signature tx = Some sig"
      and v: "isValid e tx = Inr True" and ne: "a' \<noteq> amount tx"
      and cf: "collision_free e (hashed_text tx) (hashed_text (tx\<lparr> amount := a' \<rparr>))"
      and vo: "verifies_one e k sig (Transaction_calculateHash e tx)
             (Transaction_calculateHash e (tx\<lparr> amount := a' \<rparr>))"
  proof -
    from ne hashed_text_amount[where tx = tx and a' = a'] have "hashed_text (tx\<lparr> amount := a' \<rparr>) \<noteq> hashed_text tx"
      by blast
    with cf have d: "Transaction_calculateHash e tx \<noteq> Transaction_calculateHash e (tx\<lparr> amount := a' \<rparr>)"
      by (auto simp: collision_free_def Transaction_calculateHash_def)
    from v k sg have "ec_verify e k (Transaction_calculateHash e tx) sig = Some True"
      by (auto simp: isValid_def split: if_splits option.splits)
    with vo d have "ec_verify e k (Transaction_calculateHash e (tx\<lparr> amount := a' \<rparr>)) sig \<noteq> Some True"
      by (auto simp: verifies_one_def)
    with k sg show ?thesis
      by (auto simp: isValid_def split: option.splits)
  qed
  from 1 2 3 4 show ?thesis by blast
qed

theorem calculateHash_four_fields_witness:
  "fromAddress signed_tx = Some ''alice'' \<and> signature signed_tx = Some ''alice105bobecila''
   \<and> isValid test_env signed_tx = Inr True \<and> 60 \<noteq> amount signed_tx
   \<and> collision_free test_env (hashed_text signed_tx) (hashed_text (signed_tx\<lparr> amount := 60 \<rparr>))
   \<and> verifies_one test_env ''alice'' ''alice105bobecila''
        (Transaction_calculateHash test_env signed_tx)
        (Transaction_calculateHash test_env (signed_tx\<lparr> amount := 60 \<rparr>))
   \<and> isValid test_env (signed_tx\<lparr> amount := 60 \<rparr>) = Inr False
   \<and> fromAddress unsigned_tx = fromAddress signed_tx \<and> toAddress unsigned_tx = toAddress signed_tx
   \<and> amount unsigned_tx = amount signed_tx \<and> tx_timestamp unsigned_tx = tx_timestamp signed_tx
   \<and> Transaction_calculateHash test_env unsigned_tx = Transaction_calculateHash test_env signed_tx"
proof -
  have h: "fromAddress signed_tx = Some ''alice'' \<and> signature signed_tx = Some ''alice105bobecila''
   \<and> isValid test_env signed_tx = Inr True \<and> 60 \<noteq> amount signed_tx
   \<and> collision_free test_env (hashed_text signed_tx) (hashed_text (signed_tx\<lparr> amount := 60 \<rparr>))
   \<and> verifies_one test_env ''alice'' ''alice105bobecila''
        (Transaction_calculateHash test_env signed_tx)
        (Transaction_calculateHash test_env (signed_tx\<lparr> amount := 60 \<rparr>))"
    by (simp add: isValid_def collision_free_def verifies_one_def test_defs)
  have g: "fromAddress unsigned_tx = fromAddress signed_tx \<and> toAddress unsigned_tx = toAddress signed_tx
   \<and> amount unsigned_tx = amount signed_tx \<and> tx_timestamp unsigned_tx = tx_timestamp signed_tx"
    by (simp add: signed_tx_def)
  from calculateHash_four_fields[where a = unsigned_tx and b = signed_tx and e = test_env
      and tx = signed_tx and k = "''alice''" and sig = "''alice105bobecila''" and a' = 60] h g
  show ?thesis by blast
qed

subsection \<open>Mining a block\<close>

lemma take_replicate_leading:
  "take d h = replicate d c \<Longrightarrow> d \<le> length (takeWhile (\<lambda>x. x = c) h)"
proof (induction d arbitrary: h)
  case 0 then show ?case by simp
next
  case (Suc d)
  then show ?case by (cases h) auto
qed

lemma mineBlock_post:
  "mineBlock e d b = Some b' \<Longrightarrow> take d (b_hash b') = replicate d (CHR ''0'')"
  by (rule mineBlock.raw_induct
        [where P = "\<lambda>e d b b'. take d (b_hash b') = replicate d (CHR ''0'')"])
     (auto split: if_splits simp: Let_def)

text \<open>
  C7. When \<open>mineBlock d\<close> returns, the first \<open>d\<close> characters of the block's hash are
  zeros, so the hash has at least \<open>d\<close> leading zeros. With \<open>d = 0\<close> it returns at once
  and the block is as it was: no iteration runs, and the nonce of a newly constructed block
  is still 0.
\<close>

theorem mineBlock_leading_zeros:
  "(mineBlock e d b = Some b' \<longrightarrow>
      take d (b_hash b') = replicate d (CHR ''0'') \<and> d \<le> leadingZeros (b_hash b'))
   \<and> mineBlock e 0 b = Some b
   \<and> nonce (Block e i prev ts txs dd) = 0"
proof -
  have "mineBlock e 0 b = Some b" by (subst mineBlock.simps) simp
  moreover have "nonce (Block e i prev ts txs dd) = 0" by (simp add: Block_def Let_def)
  ultimately show ?thesis
    using mineBlock_post[of e d b b'] take_replicate_leading[of d "b_hash b'" "CHR ''0''"]
    by (auto simp: leadingZeros_def)
qed



theorem mineBlock_leading_zeros_witness:
  "mineBlock test_env 1 tampered_genesis
     = Some (tampered_genesis\<lparr> nonce := 10, b_hash := ''01degrof50'' \<rparr>)
   \<and> take 1 ''01degrof50'' = replicate 1 (CHR ''0'') \<and> 1 \<le> leadingZeros ''01degrof50''"
proof -
  have m: "mineBlock test_env 1 tampered_genesis
     = Some (tampered_genesis\<lparr> nonce := 10, b_hash := ''01degrof50'' \<rparr>)"
    by (simp add: mineBlock.simps tampered_genesis_def Block_def Block_calculateHash_def
      Block_calculateMerkleRoot_def withoutBlockHash_def test_defs)
  from mineBlock_leading_zeros[of test_env 1 tampered_genesis
      "tampered_genesis\<lparr> nonce := 10, b_hash := ''01degrof50'' \<rparr>"] m
  show ?thesis by simp
qed

subsection \<open>Chain validation\<close>

lemma isChainValid_genesis_hash_only:
  "b_hash g' = b_hash g \<Longrightarrow> isChainValid e (g' # rest) = isChainValid e (g # rest)"
  by (cases rest) (simp_all add: isChainValid_def)

text \<open>
  C1. The claim is that \<open>isChainValid\<close> is false whenever the genesis block fails its own
  hash or Merkle-root check. The loop starts at index 1 and reads of block 0 only its stored
  hash: the chain made of the tampered genesis block alone, whose stored hash and Merkle root
  both differ from the recomputed ones, is reported valid.
\<close>

theorem tampered_genesis_accepted:
  "b_hash tampered_genesis \<noteq> Block_calculateHash test_env tampered_genesis
   \<and> merkleRoot tampered_genesis \<noteq> Block_calculateMerkleRoot test_env tampered_genesis
   \<and> isChainValid test_env [tampered_genesis] = True"
  by (simp add: isChainValid_def tampered_genesis_def Block_def Block_calculateHash_def
      Block_calculateMerkleRoot_def withoutBlockHash_def test_defs)

subsection \<open>Transaction intake\<close>

lemma balance_check_rejects:
  assumes "\<not> falsy (fromAddress tx)" and "toAddress tx \<noteq> []"
    and "isValid e tx = Inr True" and "0 < amount tx"
    and "stored_balance w (fromAddress tx) < amount tx"
  shows "addTransaction e tx bc w
           = (Inl InsufficientBalance, bc, w\<lparr> faults := tl (faults w) \<rparr>)"
proof -
  obtain r w1 where g: "getBalanceOfAddress (fromAddress tx) w = (r, w1)"
    by (cases "getBalanceOfAddress (fromAddress tx) w")
  from getBalanceOfAddress_cases[OF g] have
    w1: "w1 = w\<lparr> faults := tl (faults w) \<rparr>"
    and r: "r = Inr 0 \<or> r = Inr (stored_balance w (fromAddress tx))"
    by blast+
  from r assms(4,5) obtain balance where b: "r = Inr balance" "balance < amount tx"
    by auto
  show ?thesis
    using assms(1-4) g b w1 by (simp add: addTransaction_def)
qed

text \<open>
  C5. A transaction with both addresses present, a valid signature and a positive amount,
  whose sender's balance in the store is less than the amount, is rejected by
  \<open>addTransaction\<close> with \<open>InsufficientBalance\<close>; the ledger is returned as it was and the
  store differs at most in the fault schedule, of which the balance read has consumed one
  entry: no balance and no pending transaction has changed.
\<close>

theorem addTransaction_insufficient:
  assumes "\<not> falsy (fromAddress tx)" and "toAddress tx \<noteq> []"
    and "isValid e tx = Inr True" and "0 < amount tx"
    and "stored_balance w (fromAddress tx) < amount tx"
  shows "addTransaction e tx bc w
           = (Inl InsufficientBalance, bc, w\<lparr> faults := tl (faults w) \<rparr>)"
  using assms by (rule balance_check_rejects)

theorem addTransaction_insufficient_witness:
  "\<not> falsy (fromAddress signed_tx) \<and> toAddress signed_tx \<noteq> []
   \<and> isValid test_env signed_tx = Inr True \<and> 0 < amount signed_tx
   \<and> stored_balance poor_world (fromAddress signed_tx) < amount signed_tx
   \<and> fst (addTransaction test_env signed_tx constructed poor_world) = Inl InsufficientBalance
   \<and> balances (snd (snd (addTransaction test_env signed_tx constructed poor_world)))
        ''wallet_balance_alice'' = Some 10
   \<and> pending_transactions (snd (snd (addTransaction test_env signed_tx constructed poor_world)))
       = []"
proof -
  have h1: "\<not> falsy (fromAddress signed_tx)" by (simp add: falsy_def test_defs)
  have h2: "toAddress signed_tx \<noteq> []" by (simp add: test_defs)
  have h3: "isValid test_env signed_tx = Inr True" by (simp add: isValid_def test_defs)
  have h4: "0 < amount signed_tx" by (simp add: test_defs)
  have h5: "stored_balance poor_world (fromAddress signed_tx) < amount signed_tx"
    by (simp add: stored_balance_def poor_world_def empty_world_def balance_key_def test_defs)
  from addTransaction_insufficient[OF h1 h2 h3 h4 h5, of constructed] have
    "addTransaction test_env signed_tx constructed poor_world
       = (Inl InsufficientBalance, constructed,
          poor_world\<lparr> faults := tl (faults poor_world) \<rparr>)" .
  then show ?thesis using h1 h2 h3 h4 h5
    by (simp add: poor_world_def empty_world_def)
qed

lemma addTransaction_run:
  assumes "\<not> falsy (fromAddress tx)" and "toAddress tx \<noteq> []"
    and "isValid e tx = Inr True" and "0 < amount tx"
    and "amount tx \<le> stored_balance w (fromAddress tx)"
    and "accepted 6 w"
  shows "addTransaction e tx bc w =
           (Inr None,
            bc\<lparr> pendingTransactions := pendingTransactions bc @ [tx] \<rparr>,
            w\<lparr> balances :=
                 writtenBalances (writtenBalances (balances w) (fromAddress tx) (- amount tx))
                   (Some (toAddress tx)) (amount tx),
               pending_transactions :=
                 hSet (tx_hash tx)
                   (fromAddress tx, toAddress tx, amount tx, tx_timestamp tx, signature tx)
                   (pending_transactions w),
               faults := drop 6 (faults w) \<rparr>)"
proof -
  define B1 where "B1 = writtenBalances (balances w) (fromAddress tx) (- amount tx)"
  define B2 where "B2 = writtenBalances B1 (Some (toAddress tx)) (amount tx)"
  define w1 where "w1 = w\<lparr> faults := drop 1 (faults w) \<rparr>"
  define w2 where "w2 = w\<lparr> balances := B1, faults := drop 3 (faults w) \<rparr>"
  define w3 where "w3 = w\<lparr> balances := B2, faults := drop 5 (faults w) \<rparr>"
  from assms(6) have "accepted (Suc 5) w" by simp
  then have g: "getBalanceOfAddress (fromAddress tx) w
                  = (Inr (stored_balance w (fromAddress tx)), w1)"
    unfolding w1_def by (rule getBalanceOfAddress_accepted)
  from assms(6) have "accepted (Suc (Suc 3)) w1"
    by (auto intro: accepted_drop[where k = 1] simp: w1_def)
  from updateWalletBalance_accepted[OF this]
  have u1: "updateWalletBalance (fromAddress tx) (- amount tx) w1 = (Inr (), w2)"
    by (simp add: w1_def w2_def B1_def)
  from assms(6) have "accepted (Suc (Suc 1)) w2"
    by (auto intro: accepted_drop[where k = 3] simp: w2_def)
  from updateWalletBalance_accepted[OF this]
  have u2: "updateWalletBalance (Some (toAddress tx)) (amount tx) w2 = (Inr (), w3)"
    by (simp add: w2_def w3_def B2_def)
  from assms(6) have "accepted (Suc 0) w3"
    by (auto intro: accepted_drop[where k = 5] simp: w3_def)
  from savePendingToRedis_accepted[OF this, of tx]
  have s: "savePendingToRedis tx w3 =
             (Inr (), w\<lparr> balances := B2,
                         pending_transactions :=
                           hSet (tx_hash tx)
                             (fromAddress tx, toAddress tx, amount tx, tx_timestamp tx,
                              signature tx)
                             (pending_transactions w),
                         faults := drop 6 (faults w) \<rparr>)"
    by (simp add: w3_def)
  show ?thesis
    using assms(1-5) by (simp add: addTransaction_def g u1 u2 s B1_def B2_def)
qed

text \<open>
  C4, as the code has it. For a transaction that passes the four checks, when the cache
  accepts the six commands of the run and the numbers stay where the addition of doubles is
  exact (the sender's balance, and the recipient's balance plus the amount, are integers of
  magnitude at most \<open>2^53\<close>), \<open>addTransaction\<close> debits the sender's balance by the amount,
  then credits the recipient's, stores the transaction under its hash in the pending hash of
  the cache, appends it to the ledger's pending list, and returns no value: the hash is
  logged, not returned.
\<close>

theorem addTransaction_accepts:
  assumes "\<not> falsy (fromAddress tx)" and "toAddress tx \<noteq> []"
    and "isValid e tx = Inr True" and "0 < amount tx"
    and "amount tx \<le> stored_balance w (fromAddress tx)"
    and "accepted 6 w"
    and "exact_range (stored_balance w (fromAddress tx))"
    and "exact_range (stored_balance w (Some (toAddress tx)) + amount tx)"
  shows "addTransaction e tx bc w =
           (Inr None,
            bc\<lparr> pendingTransactions := pendingTransactions bc @ [tx] \<rparr>,
            w\<lparr> balances :=
                 applyDelta (applyDelta (balances w) (fromAddress tx) (- amount tx))
                   (Some (toAddress tx)) (amount tx),
               pending_transactions :=
                 hSet (tx_hash tx)
                   (fromAddress tx, toAddress tx, amount tx, tx_timestamp tx, signature tx)
                   (pending_transactions w),
               faults := drop 6 (faults w) \<rparr>)"
proof -
  define B where "B = balances w"
  define kf where "kf = balance_key (fromAddress tx)"
  define kt where "kt = balance_key (Some (toAddress tx))"
  define cf where "cf = (case B kf of None \<Rightarrow> 0 | Some v \<Rightarrow> v)"
  define ct where "ct = (case B kt of None \<Rightarrow> 0 | Some v \<Rightarrow> v)"
  have sf: "stored_balance w (fromAddress tx) = cf"
    and st: "stored_balance w (Some (toAddress tx)) = ct"
    by (simp_all add: stored_balance_def cf_def ct_def B_def kf_def kt_def)
  from assms(4,5,7) sf have "exact_range (cf + (- amount tx))"
    by (simp add: exact_range_def)
  then have e1: "Number_add cf (- amount tx) = cf + (- amount tx)"
    by (rule Number_add_exact)
  have d: "writtenBalances B (fromAddress tx) (- amount tx)
             = applyDelta B (fromAddress tx) (- amount tx)"
    using e1 by (simp add: writtenBalances_def applyDelta_def cf_def kf_def)
  define B1 where "B1 = applyDelta B (fromAddress tx) (- amount tx)"
  define c1 where "c1 = (case B1 kt of None \<Rightarrow> 0 | Some v \<Rightarrow> v)"
  have "exact_range (c1 + amount tx)"
  proof (cases "kt = kf")
    case True
    then have "c1 = cf - amount tx"
      by (simp add: c1_def B1_def applyDelta_def cf_def kf_def)
    with assms(7) sf show ?thesis by simp
  next
    case False
    then have "c1 = ct"
      by (simp add: c1_def B1_def applyDelta_def ct_def kf_def)
    with assms(8) st show ?thesis by simp
  qed
  then have e2: "Number_add c1 (amount tx) = c1 + amount tx"
    by (rule Number_add_exact)
  have c: "writtenBalances B1 (Some (toAddress tx)) (amount tx)
             = applyDelta B1 (Some (toAddress tx)) (amount tx)"
    using e2 by (simp add: writtenBalances_def applyDelta_def c1_def kt_def)
  show ?thesis
    using addTransaction_run[OF assms(1-6), of bc] d c by (simp add: B_def B1_def)
qed

theorem addTransaction_accepts_witness:
  "\<not> falsy (fromAddress signed_tx) \<and> toAddress signed_tx \<noteq> []
   \<and> isValid test_env signed_tx = Inr True \<and> 0 < amount signed_tx
   \<and> amount signed_tx \<le> stored_balance funded_world (fromAddress signed_tx)
   \<and> accepted 6 funded_world
   \<and> exact_range (stored_balance funded_world (fromAddress signed_tx))
   \<and> exact_range (stored_balance funded_world (Some (toAddress signed_tx)) + amount signed_tx)
   \<and> fst (addTransaction test_env signed_tx constructed funded_world) = Inr None
   \<and> pendingTransactions (fst (snd (addTransaction test_env signed_tx constructed funded_world)))
       = [signed_tx]
   \<and> balances (snd (snd (addTransaction test_env signed_tx constructed funded_world)))
        ''wallet_balance_alice'' = Some 50
   \<and> balances (snd (snd (addTransaction test_env signed_tx constructed funded_world)))
        ''wallet_balance_bob'' = Some 50
   \<and> pending_transactions
        (snd (snd (addTransaction test_env signed_tx constructed funded_world)))
       = [(''105bobecila'', (Some ''alice'', ''bob'', 50, 1, Some ''alice105bobecila''))]"
proof -
  have h1: "\<not> falsy (fromAddress signed_tx)" by (simp add: falsy_def test_defs)
  have h2: "toAddress signed_tx \<noteq> []" by (simp add: test_defs)
  have h3: "isValid test_env signed_tx = Inr True" by (simp add: isValid_def test_defs)
  have h4: "0 < amount signed_tx" by (simp add: test_defs)
  have h5: "amount signed_tx \<le> stored_balance funded_world (fromAddress signed_tx)"
    by (simp add: stored_balance_def funded_world_def empty_world_def balance_key_def test_defs)
  have h6: "accepted 6 funded_world"
    by (simp add: accepted_def funded_world_def empty_world_def)
  have h7: "exact_range (stored_balance funded_world (fromAddress signed_tx))"
    by (simp add: exact_range_def stored_balance_def funded_world_def empty_world_def
        balance_key_def test_defs)
  have h8: "exact_range
              (stored_balance funded_world (Some (toAddress signed_tx)) + amount signed_tx)"
    by (simp add: exact_range_def stored_balance_def funded_world_def empty_world_def
        balance_key_def test_defs)
  note r = addTransaction_accepts[OF h1 h2 h3 h4 h5 h6 h7 h8, of constructed]
  have f: "fromAddress signed_tx = Some ''alice''" "toAddress signed_tx = ''bob''"
    "amount signed_tx = 50" by (simp_all add: test_defs)
  have "fst (addTransaction test_env signed_tx constructed funded_world) = Inr None"
    by (simp add: r)
  moreover have
    "pendingTransactions (fst (snd (addTransaction test_env signed_tx constructed funded_world)))
       = [signed_tx]"
    unfolding r by (simp add: Blockchain_def constructed_def)
  moreover have
    "balances (snd (snd (addTransaction test_env signed_tx constructed funded_world)))
        ''wallet_balance_alice'' = Some 50"
    "balances (snd (snd (addTransaction test_env signed_tx constructed funded_world)))
        ''wallet_balance_bob'' = Some 50"
    unfolding r
    by (simp_all add: f funded_world_def empty_world_def applyDelta_def balance_key_def
        String_address_def)
  moreover have
    "pending_transactions
        (snd (snd (addTransaction test_env signed_tx constructed funded_world)))
       = [(''105bobecila'', (Some ''alice'', ''bob'', 50, 1, Some ''alice105bobecila''))]"
    unfolding r by (simp add: funded_world_def empty_world_def test_defs)
  ultimately show ?thesis using h1 h2 h3 h4 h5 h6 h7 h8 by blast
qed

text \<open>
  C4 as claimed fails in three ways. An accepted transaction does not come back with its
  hash. When the cache rejects the write of the debit, \<open>updateWalletBalance\<close> swallows the
  error: the transaction is accepted all the same and the sender's balance is what it was.
  And past the exact range the credit is not by the amount: a recipient at \<open>2^53\<close> who
  receives 1 is still at \<open>2^53\<close>.
\<close>

theorem addTransaction_returns_no_hash:
  "\<not> falsy (fromAddress signed_tx) \<and> toAddress signed_tx \<noteq> []
   \<and> isValid test_env signed_tx = Inr True \<and> 0 < amount signed_tx
   \<and> amount signed_tx \<le> stored_balance funded_world (fromAddress signed_tx)
   \<and> fst (addTransaction test_env signed_tx constructed funded_world)
       \<noteq> Inr (Some (tx_hash signed_tx))
   \<and> amount signed_tx \<le> stored_balance debit_rejected (fromAddress signed_tx)
   \<and> fst (addTransaction test_env signed_tx constructed debit_rejected) = Inr None
   \<and> stored_balance (snd (snd (addTransaction test_env signed_tx constructed debit_rejected)))
        (fromAddress signed_tx)
       = stored_balance debit_rejected (fromAddress signed_tx)
   \<and> \<not> falsy (fromAddress one_tx) \<and> toAddress one_tx \<noteq> []
   \<and> isValid test_env one_tx = Inr True \<and> 0 < amount one_tx
   \<and> amount one_tx \<le> stored_balance large_world (fromAddress one_tx)
   \<and> fst (addTransaction test_env one_tx constructed large_world) = Inr None
   \<and> stored_balance (snd (snd (addTransaction test_env one_tx constructed large_world)))
        (Some (toAddress one_tx))
       \<noteq> stored_balance large_world (Some (toAddress one_tx)) + amount one_tx"
  by (simp add: addTransaction_def isValid_def falsy_def getBalanceOfAddress_def
      updateWalletBalance_def client_get_def client_set_def savePendingToRedis_def command_def
      stored_balance_def balance_key_def funded_world_def debit_rejected_def large_world_def
      one_tx_def empty_world_def Blockchain_def constructed_def Number_add_def
      round_double_def bit_length_above Let_def test_defs)




subsection \<open>Mining pending transactions\<close>

lemma lock_state_command: "command w = (f, w') \<Longrightarrow> lock_state w' = lock_state w"
  by (auto simp: command_eq lock_state_def)

lemma lock_state_client_get: "client_get k w = (r, w') \<Longrightarrow> lock_state w' = lock_state w"
  by (auto simp: client_get_def command_eq lock_state_def split: bool.splits if_splits)

lemma lock_state_client_set: "client_set k v w = (r, w') \<Longrightarrow> lock_state w' = lock_state w"
  by (auto simp: client_set_def command_eq lock_state_def split: bool.splits if_splits)

lemma lock_state_db_query: "db_query row w = (r, w') \<Longrightarrow> lock_state w' = lock_state w"
  by (auto simp: db_query_def command_eq lock_state_def split: bool.splits if_splits)

lemma lock_state_load:
  "loadPendingTransactionsFromRedis e w = (r, w') \<Longrightarrow> lock_state w' = lock_state w"
  by (auto simp: loadPendingTransactionsFromRedis_def command_eq lock_state_def
      split: bool.splits if_splits)

lemma lock_state_remove:
  "removePendingTransactionFromRedis h w = (r, w') \<Longrightarrow> lock_state w' = lock_state w"
  by (auto simp: removePendingTransactionFromRedis_def command_eq lock_state_def
      split: bool.splits if_splits)

lemma lock_state_update:
  "updateWalletBalance a d w = (r, w') \<Longrightarrow> lock_state w' = lock_state w"
  by (auto simp: updateWalletBalance_def Let_def split: prod.splits sum.splits
      dest!: lock_state_client_get lock_state_client_set)

lemma lock_state_save_transactions:
  "save_transactions h txs w = (r, txs', w') \<Longrightarrow> lock_state w' = lock_state w"
proof (induction txs arbitrary: w r txs' w')
  case Nil
  then show ?case by simp
next
  case (Cons tx txs)
  then show ?case
    by (auto simp: Let_def Transaction_save_def split: prod.splits sum.splits
        dest!: lock_state_db_query)
qed

lemma lock_state_saveMerkleProofs:
  "saveMerkleProofs h txs w = (r, w') \<Longrightarrow> lock_state w' = lock_state w"
proof (induction txs arbitrary: w r w')
  case Nil
  then show ?case by simp
next
  case (Cons tx txs)
  then show ?case
    by (auto split: prod.splits sum.splits dest!: lock_state_db_query)
qed

lemma lock_state_Block_save:
  "Block_save b w = (r, b', w') \<Longrightarrow> lock_state w' = lock_state w"
  by (auto simp: Block_save_def Let_def split: prod.splits sum.splits
      dest!: lock_state_db_query lock_state_save_transactions lock_state_saveMerkleProofs)

lemma lock_state_clearMined:
  "clearMined txs w = (r, w') \<Longrightarrow> lock_state w' = lock_state w"
proof (induction txs arbitrary: w r w')
  case Nil
  then show ?case by simp
next
  case (Cons tx txs)
  then show ?case
    by (auto split: prod.splits sum.splits dest!: lock_state_remove lock_state_update)
qed

lemma lock_state_mine_try:
  "mine_try e a t1 t2 bc w = Some (r, bc', w') \<Longrightarrow> lock_state w' = lock_state w"
  by (auto simp: mine_try_def Let_def split: if_splits option.splits prod.splits sum.splits
      dest!: lock_state_load lock_state_Block_save lock_state_clearMined)


lemma mineBlock_0: "mineBlock e 0 b = Some b"
  by (subst mineBlock.simps) simp

text \<open>
  The constructor's genesis creation, on an empty store that accepts every command: the
  ledger is the one used below, the genesis address is credited and no other entry
  written, and the chain is reported valid.
\<close>

lemma genesis_created:
  "fst (snd (the (createGenesisBlockWithReward test_env ''genesis-address'' 1000000 3 4
                    Blockchain empty_world))) = constructed
   \<and> balances (snd (snd (the (createGenesisBlockWithReward test_env ''genesis-address''
                    1000000 3 4 Blockchain empty_world)))) ''wallet_balance_genesis-address''
       = Some 1000000
   \<and> balances (snd (snd (the (createGenesisBlockWithReward test_env ''genesis-address''
                    1000000 3 4 Blockchain empty_world)))) ''wallet_balance_null'' = None
   \<and> isChainValid test_env (chain constructed)"
  by (simp add: createGenesisBlockWithReward_def mineBlock_0 Block_save_def db_query_def
      Transaction_save_def command_def updateWalletBalance_def client_get_def client_set_def
      Number_add_def round_double_def balance_key_def isChainValid_def Block_def Block_calculateHash_def
      Block_calculateMerkleRoot_def withoutBlockHash_def Blockchain_def constructed_def
      genesis_block_def empty_world_def test_defs Let_def)

lemma mineBlock_transactions:
  "mineBlock e d b = Some b' \<Longrightarrow> transactions b' = transactions b"
  by (rule mineBlock.raw_induct[where P = "\<lambda>e d b b'. transactions b' = transactions b"])
     (auto split: if_splits simp: Let_def)

lemma mine_try_returns: "difficulty bc = 0 \<Longrightarrow> mine_try e a t1 t2 bc w \<noteq> None"
  by (auto simp: mine_try_def Let_def mineBlock_0 split: prod.splits sum.splits)

lemma acquireLock_free:
  "k \<notin> set (locks w) \<Longrightarrow> acquireLock k ttl w = (True, w\<lparr> locks := k # locks w \<rparr>)"
  by (simp add: acquireLock_def)

text \<open>
  C8. When the mining lock is held, \<open>minePendingTransactions\<close> returns without an error
  and leaves the ledger and the whole store as they were. When it acquires the lock, every
  run that completes, whatever commands the cache and the store reject on the way, ends
  without an error and with exactly one release of the lock logged, the lock free again; and
  at difficulty 0, the constructor's value, every run completes.
\<close>

theorem minePendingTransactions_lock:
  "(''miningLock'' \<in> set (locks w) \<longrightarrow>
      minePendingTransactions e a t1 t2 bc w = Some (Inr (), bc, w))
   \<and> (''miningLock'' \<notin> set (locks w) \<longrightarrow>
        (\<forall>r bc' w'. minePendingTransactions e a t1 t2 bc w = Some (r, bc', w') \<longrightarrow>
           r = Inr () \<and> released w' = released w @ [''miningLock''] \<and> locks w' = locks w)
        \<and> (difficulty bc = 0 \<longrightarrow> minePendingTransactions e a t1 t2 bc w \<noteq> None))"
proof -
  have held: "minePendingTransactions e a t1 t2 bc w = Some (Inr (), bc, w)"
    if "''miningLock'' \<in> set (locks w)"
    using that by (simp add: minePendingTransactions_def acquireLock_def)
  have free: "r = Inr () \<and> released w' = released w @ [''miningLock''] \<and> locks w' = locks w"
    if f: "''miningLock'' \<notin> set (locks w)"
      and m: "minePendingTransactions e a t1 t2 bc w = Some (r, bc', w')" for r bc' w'
  proof -
    let ?w0 = "w\<lparr> locks := ''miningLock'' # locks w \<rparr>"
    from m f obtain r0 w1 where t: "mine_try e a t1 t2 bc ?w0 = Some (r0, bc', w1)"
      and r: "r = Inr ()" and w': "w' = releaseLock ''miningLock'' w1"
      by (auto simp: minePendingTransactions_def acquireLock_free split: option.splits)
    from lock_state_mine_try[OF t] have "locks w1 = ''miningLock'' # locks w"
      and "released w1 = released w"
      by (simp_all add: lock_state_def)
    with f r w' show ?thesis by (simp add: releaseLock_def)
  qed
  have total: "minePendingTransactions e a t1 t2 bc w \<noteq> None"
    if "''miningLock'' \<notin> set (locks w)" and d: "difficulty bc = 0"
    using that mine_try_returns[OF d, of e a t1 t2 "w\<lparr> locks := ''miningLock'' # locks w \<rparr>"]
    by (auto simp: minePendingTransactions_def acquireLock_free split: option.splits)
  from held free total show ?thesis by blast
qed

theorem minePendingTransactions_lock_witness:
  "''miningLock'' \<in> set (locks busy_world)
   \<and> minePendingTransactions test_env ''miner'' 7 8 constructed busy_world
       = Some (Inr (), constructed, busy_world)
   \<and> ''miningLock'' \<notin> set (locks failing_world) \<and> difficulty constructed = 0
   \<and> fst (command failing_world)
   \<and> fst (the (minePendingTransactions test_env ''miner'' 7 8 constructed failing_world)) = Inr ()
   \<and> released (snd (snd (the
        (minePendingTransactions test_env ''miner'' 7 8 constructed failing_world))))
       = [''miningLock'']
   \<and> locks (snd (snd (the
        (minePendingTransactions test_env ''miner'' 7 8 constructed failing_world)))) = []"
proof -
  have b: "''miningLock'' \<in> set (locks busy_world)" by (simp add: busy_world_def)
  have f: "''miningLock'' \<notin> set (locks failing_world) \<and> difficulty constructed = 0
           \<and> fst (command failing_world) \<and> released failing_world = []
           \<and> locks failing_world = []"
    by (simp add: failing_world_def pool_world_def funded_world_def empty_world_def
        Blockchain_def constructed_def command_def)
  from minePendingTransactions_lock[of busy_world test_env "''miner''" 7 8 constructed] b
  have 1: "minePendingTransactions test_env ''miner'' 7 8 constructed busy_world
             = Some (Inr (), constructed, busy_world)" by blast
  note t = minePendingTransactions_lock[of failing_world test_env "''miner''" 7 8 constructed]
  from t f obtain r bc' w' where
    m: "minePendingTransactions test_env ''miner'' 7 8 constructed failing_world = Some (r, bc', w')"
    by fastforce
  with t f have "r = Inr () \<and> released w' = released failing_world @ [''miningLock'']
                 \<and> locks w' = locks failing_world" by blast
  with m f b 1 show ?thesis by simp
qed

lemma save_transactions_fields:
  "save_transactions h txs w = (r, txs', w') \<Longrightarrow>
     map withoutBlockHash txs' = map withoutBlockHash txs"
proof (induction txs arbitrary: w r txs' w')
  case Nil
  then show ?case by simp
next
  case (Cons tx txs)
  then show ?case
    by (auto simp: Let_def withoutBlockHash_def split: prod.splits sum.splits)
qed

lemma Block_save_fields:
  "Block_save b w = (r, b', w') \<Longrightarrow>
     map withoutBlockHash (transactions b') = map withoutBlockHash (transactions b)"
  by (auto simp: Block_save_def Let_def split: prod.splits sum.splits
      dest!: save_transactions_fields)

lemma mine_try_appends:
  assumes ld: "fst (loadPendingTransactionsFromRedis e w) = Inr loaded"
    and n: "0 < transactionThreshold bc" "transactionThreshold bc \<le> length loaded"
    and m: "mine_try e a t1 t2 bc w = Some (r, bc', w')"
  shows "\<exists>blk. chain bc' = chain bc @ [blk]
           \<and> map withoutBlockHash (transactions blk) =
               map withoutBlockHash
                 (take (transactionThreshold bc) loaded @ [Transaction e None a (miningReward bc) t1 None []])"
proof -
  obtain w1 where l: "loadPendingTransactionsFromRedis e w = (Inr loaded, w1)"
    using ld by (cases "loadPendingTransactionsFromRedis e w") simp
  from n have ne: "take (transactionThreshold bc) loaded \<noteq> []" by auto
  let ?reward = "Transaction e None a (miningReward bc) t1 None []"
  have rw: "?reward\<lparr> tx_hash := Transaction_calculateHash e ?reward \<rparr> = ?reward"
    by (simp add: Transaction_def Let_def Transaction_calculateHash_def hashed_text_def)
  let ?txs = "take (transactionThreshold bc) loaded @ [?reward]"
  from m l ne have "\<exists>i p mined r1 saved w2.
      mineBlock e (difficulty bc) (Block e i p t2 ?txs (difficulty bc)) = Some mined
      \<and> Block_save mined w1 = (r1, saved, w2) \<and> chain bc' = chain bc @ [saved]"
    by (fastforce simp: mine_try_def Let_def rw split: option.splits prod.splits sum.splits)
  then obtain i p mined r1 saved w2 where
    mi: "mineBlock e (difficulty bc) (Block e i p t2 ?txs (difficulty bc)) = Some mined"
    and sv: "Block_save mined w1 = (r1, saved, w2)" and ch: "chain bc' = chain bc @ [saved]"
    by blast
  have b: "transactions (Block e i p t2 ?txs (difficulty bc)) = ?txs"
    by (simp add: Block_def Let_def)
  from mineBlock_transactions[OF mi] b Block_save_fields[OF sv]
  have "map withoutBlockHash (transactions saved) = map withoutBlockHash ?txs" by simp
  with ch show ?thesis by blast
qed

lemma withoutBlockHash_transactionObjects:
  "map withoutBlockHash (transactionObjects e entries) = map storedFields entries"
  by (induction entries)
     (auto simp: transactionObjects_def withoutBlockHash_def storedFields_def Transaction_def
        Let_def)

lemma withoutBlockHash_reward:
  "withoutBlockHash (Transaction e None a reward t1 None [])
     = (None, a, reward, t1, None,
        sha256 e (''null'' @ a @ String_number reward @ String_number t1))"
  by (simp add: withoutBlockHash_def Transaction_def Let_def Transaction_calculateHash_def
      hashed_text_def String_address_def)

lemma mineBlock_never:
  assumes "\<And>s. take d (sha256 e s) \<noteq> replicate d (CHR ''0'')"
    and "take d (b_hash b) \<noteq> replicate d (CHR ''0'')"
  shows "mineBlock e d b = None"
proof (cases "mineBlock e d b")
  case None
  then show ?thesis .
next
  case (Some b')
  have "(\<forall>s. take d (sha256 e s) \<noteq> replicate d (CHR ''0''))
          \<longrightarrow> take d (b_hash b) \<noteq> replicate d (CHR ''0'') \<longrightarrow> False"
  proof (rule mineBlock.raw_induct
          [where P = "\<lambda>e d b b'. (\<forall>s. take d (sha256 e s) \<noteq> replicate d (CHR ''0''))
              \<longrightarrow> take d (b_hash b) \<noteq> replicate d (CHR ''0'') \<longrightarrow> False", OF _ Some])
    fix f e d b y
    assume IH: "\<And>e d b y. f e d b = Some y \<Longrightarrow>
              (\<forall>s. take d (sha256 e s) \<noteq> replicate d (CHR ''0''))
              \<longrightarrow> take d (b_hash b) \<noteq> replicate d (CHR ''0'') \<longrightarrow> False"
      and body: "(if take d (b_hash b) \<noteq> replicate d (CHR ''0'')
                  then f e d (let b1 = b\<lparr> nonce := nonce b + 1 \<rparr>
                              in b1\<lparr> b_hash := Block_calculateHash e b1 \<rparr>)
                  else Some b) = Some y"
    show "(\<forall>s. take d (sha256 e s) \<noteq> replicate d (CHR ''0''))
            \<longrightarrow> take d (b_hash b) \<noteq> replicate d (CHR ''0'') \<longrightarrow> False"
    proof (intro impI)
      assume h: "\<forall>s. take d (sha256 e s) \<noteq> replicate d (CHR ''0'')"
        and n: "take d (b_hash b) \<noteq> replicate d (CHR ''0'')"
      define b2 where "b2 = (let b1 = b\<lparr> nonce := nonce b + 1 \<rparr>
                             in b1\<lparr> b_hash := Block_calculateHash e b1 \<rparr>)"
      from body n have "f e d b2 = Some y" by (simp add: b2_def)
      moreover from h have "take d (b_hash b2) \<noteq> replicate d (CHR ''0'')"
        by (simp add: b2_def Let_def Block_calculateHash_def)
      ultimately show False using IH h by blast
    qed
  qed
  with assms show ?thesis by blast
qed

text \<open>
  C3, as the code has it. When the mining lock is acquired, the cache accepts the read of
  the pending hash, which holds at least \<open>transactionThreshold\<close> entries, and
  \<open>transactionThreshold\<close> is positive, every completed run of \<open>minePendingTransactions\<close>
  has appended exactly one block to the chain. Its transaction list has
  \<open>transactionThreshold + 1\<close> elements: the first \<open>transactionThreshold\<close> entries of the
  pending hash, in its order, each with its stored fields and its key as hash, then the
  reward transaction with no sender, the given miner address, \<open>miningReward\<close> and no
  signature. At difficulty 0 every run completes.
\<close>

theorem minePendingTransactions_appends:
  assumes "fst (acquireLock ''miningLock'' 10000 w)"
    and "accepted 1 w"
    and "0 < transactionThreshold bc"
    and "transactionThreshold bc \<le> length (pending_transactions w)"
  shows "(\<forall>r bc' w'. minePendingTransactions e a t1 t2 bc w = Some (r, bc', w') \<longrightarrow>
            (\<exists>blk. chain bc' = chain bc @ [blk]
               \<and> length (chain bc') = length (chain bc) + 1
               \<and> length (transactions blk) = transactionThreshold bc + 1
               \<and> map withoutBlockHash (transactions blk) =
                   map storedFields (take (transactionThreshold bc) (pending_transactions w))
                   @ [(None, a, miningReward bc, t1, None,
                       sha256 e (''null'' @ a @ String_number (miningReward bc)
                                 @ String_number t1))]))
         \<and> (difficulty bc = 0 \<longrightarrow> minePendingTransactions e a t1 t2 bc w \<noteq> None)"
proof -
  let ?w0 = "w\<lparr> locks := ''miningLock'' # locks w \<rparr>"
  let ?loaded = "transactionObjects e (pending_transactions w)"
  let ?reward = "Transaction e None a (miningReward bc) t1 None []"
  let ?txs = "take (transactionThreshold bc) ?loaded @ [?reward]"
  from assms(1) have free: "''miningLock'' \<notin> set (locks w)"
    by (simp add: acquireLock_def split: if_splits)
  from assms(2) have "accepted (Suc 0) ?w0" by (simp add: accepted_def)
  from command_accepted[OF this]
  have ld: "fst (loadPendingTransactionsFromRedis e ?w0) = Inr ?loaded"
    by (simp add: loadPendingTransactionsFromRedis_def)
  from assms(4) have len: "transactionThreshold bc \<le> length ?loaded"
    by (simp add: transactionObjects_def)
  have fields: "map withoutBlockHash ?txs =
      map storedFields (take (transactionThreshold bc) (pending_transactions w))
      @ [(None, a, miningReward bc, t1, None,
          sha256 e (''null'' @ a @ String_number (miningReward bc) @ String_number t1))]"
    by (simp add: take_map [symmetric] withoutBlockHash_transactionObjects
        withoutBlockHash_reward)
  have main: "\<exists>blk. chain bc' = chain bc @ [blk]
               \<and> length (chain bc') = length (chain bc) + 1
               \<and> length (transactions blk) = transactionThreshold bc + 1
               \<and> map withoutBlockHash (transactions blk) = map withoutBlockHash ?txs"
    if m: "minePendingTransactions e a t1 t2 bc w = Some (r, bc', w')" for r bc' w'
  proof -
    from m free obtain r0 w1 where t: "mine_try e a t1 t2 bc ?w0 = Some (r0, bc', w1)"
      by (auto simp: minePendingTransactions_def acquireLock_free split: option.splits)
    from mine_try_appends[OF ld assms(3) len t] obtain blk where
      ch: "chain bc' = chain bc @ [blk]"
      and eq: "map withoutBlockHash (transactions blk) = map withoutBlockHash ?txs"
      by blast
    from eq have "length (transactions blk) = length ?txs"
      by (metis length_map)
    with len have l: "length (transactions blk) = transactionThreshold bc + 1" by simp
    with ch eq show ?thesis by simp
  qed
  have total: "minePendingTransactions e a t1 t2 bc w \<noteq> None" if d: "difficulty bc = 0"
    using free mine_try_returns[OF d, of e a t1 t2 ?w0]
    by (auto simp: minePendingTransactions_def acquireLock_free split: option.splits)
  from main total show ?thesis unfolding fields by blast
qed


theorem minePendingTransactions_appends_witness:
  "fst (acquireLock ''miningLock'' 10000 three_pending) \<and> accepted 1 three_pending
   \<and> 0 < transactionThreshold constructed
   \<and> transactionThreshold constructed \<le> length (pending_transactions three_pending)
   \<and> difficulty constructed = 0
   \<and> length (chain (fst (snd (the
         (minePendingTransactions test_env ''miner'' 7 8 constructed three_pending)))))
       = length (chain constructed) + 1
   \<and> butlast (chain (fst (snd (the
         (minePendingTransactions test_env ''miner'' 7 8 constructed three_pending)))))
       = chain constructed
   \<and> map withoutBlockHash (transactions (last (chain (fst (snd (the
         (minePendingTransactions test_env ''miner'' 7 8 constructed three_pending)))))))
       = [(Some ''alice'', ''bob'', 50, 1, Some ''alice105bobecila'', ''105bobecila''),
          (Some ''bob'', ''carol'', 20, 2, Some ''bob202loracbob'', ''202loracbob''),
          (None, ''miner'', 100, 7, None, ''7001renimllun'')]"
proof -
  have h1: "fst (acquireLock ''miningLock'' 10000 three_pending)"
    by (simp add: acquireLock_def three_pending_def funded_world_def empty_world_def)
  have h2: "accepted 1 three_pending"
    by (simp add: accepted_def three_pending_def funded_world_def empty_world_def)
  have h3: "0 < transactionThreshold constructed" by (simp add: Blockchain_def constructed_def)
  have h4: "transactionThreshold constructed \<le> length (pending_transactions three_pending)"
    by (simp add: Blockchain_def constructed_def three_pending_def)
  have h5: "difficulty constructed = 0" by (simp add: Blockchain_def constructed_def)
  have v: "map storedFields
             (take (transactionThreshold constructed) (pending_transactions three_pending))
           @ [(None, ''miner'', miningReward constructed, 7, None,
               sha256 test_env (''null'' @ ''miner'' @ String_number (miningReward constructed)
                                @ String_number 7))]
           = [(Some ''alice'', ''bob'', 50, 1, Some ''alice105bobecila'', ''105bobecila''),
              (Some ''bob'', ''carol'', 20, 2, Some ''bob202loracbob'', ''202loracbob''),
              (None, ''miner'', 100, 7, None, ''7001renimllun'')]"
    by (simp add: storedFields_def three_pending_def Blockchain_def constructed_def
        numeral_2_eq_2 test_defs)
  note t = minePendingTransactions_appends[OF h1 h2 h3 h4, of test_env "''miner''" 7 8]
  from t h5 obtain r bc' w' where
    m: "minePendingTransactions test_env ''miner'' 7 8 constructed three_pending
          = Some (r, bc', w')"
    by fastforce
  with t obtain blk where ch: "chain bc' = chain constructed @ [blk]"
    and eq: "map withoutBlockHash (transactions blk) =
           map storedFields
             (take (transactionThreshold constructed) (pending_transactions three_pending))
           @ [(None, ''miner'', miningReward constructed, 7, None,
               sha256 test_env (''null'' @ ''miner'' @ String_number (miningReward constructed)
                                @ String_number 7))]"
    by blast
  from eq v have c: "map withoutBlockHash (transactions blk)
       = [(Some ''alice'', ''bob'', 50, 1, Some ''alice105bobecila'', ''105bobecila''),
          (Some ''bob'', ''carol'', 20, 2, Some ''bob202loracbob'', ''202loracbob''),
          (None, ''miner'', 100, 7, None, ''7001renimllun'')]"
    by (rule trans)
  from m ch have
    "length (chain (fst (snd (the
         (minePendingTransactions test_env ''miner'' 7 8 constructed three_pending)))))
       = length (chain constructed) + 1"
    "butlast (chain (fst (snd (the
         (minePendingTransactions test_env ''miner'' 7 8 constructed three_pending)))))
       = chain constructed"
    "last (chain (fst (snd (the
         (minePendingTransactions test_env ''miner'' 7 8 constructed three_pending)))))
       = blk"
    by simp_all
  with c h1 h2 h3 h4 h5 show ?thesis by simp
qed

text \<open>
  C3 as claimed fails in three ways, each with the lock acquired and the pending hash
  holding \<open>transactionThreshold\<close> entries or more. When the cache rejects the read of the
  pending hash, the error is caught and the chain is as it was. With a threshold of 0 the
  batch is empty and the run returns before building a block. And when no digest starts with
  a zero, the nonce search at difficulty 1 never returns, and neither does the run.
\<close>

theorem minePendingTransactions_no_block:
  "fst (acquireLock ''miningLock'' 10000 failing_world)
   \<and> transactionThreshold constructed \<le> length (pending_transactions failing_world)
   \<and> chain (fst (snd (the
        (minePendingTransactions test_env ''miner'' 7 8 constructed failing_world))))
       = chain constructed
   \<and> fst (acquireLock ''miningLock'' 10000 pool_world)
   \<and> transactionThreshold zero_threshold \<le> length (pending_transactions pool_world)
   \<and> chain (fst (snd (the
        (minePendingTransactions test_env ''miner'' 7 8 zero_threshold pool_world))))
       = chain zero_threshold
   \<and> transactionThreshold hard_ledger \<le> length (pending_transactions pool_world)
   \<and> minePendingTransactions stuck_env ''miner'' 7 8 hard_ledger pool_world = None"
proof -
  have 1: "fst (acquireLock ''miningLock'' 10000 failing_world)
           \<and> transactionThreshold constructed \<le> length (pending_transactions failing_world)
           \<and> chain (fst (snd (the
                (minePendingTransactions test_env ''miner'' 7 8 constructed failing_world))))
               = chain constructed"
    by (simp add: minePendingTransactions_def acquireLock_def releaseLock_def mine_try_def
        loadPendingTransactionsFromRedis_def command_def failing_world_def pool_world_def
        funded_world_def empty_world_def constructed_def Blockchain_def)
  have 2: "fst (acquireLock ''miningLock'' 10000 pool_world)
           \<and> transactionThreshold zero_threshold \<le> length (pending_transactions pool_world)
           \<and> chain (fst (snd (the
                (minePendingTransactions test_env ''miner'' 7 8 zero_threshold pool_world))))
               = chain zero_threshold"
    by (simp add: minePendingTransactions_def acquireLock_def releaseLock_def mine_try_def
        loadPendingTransactionsFromRedis_def command_def zero_threshold_def pool_world_def
        funded_world_def empty_world_def constructed_def Blockchain_def Let_def)
  have s: "\<And>s. take 1 (sha256 stuck_env s) \<noteq> replicate 1 (CHR ''0'')"
    by (simp add: stuck_env_def test_env_def)
  have "mineBlock stuck_env 1 (Block stuck_env i p t txs d) = None" for i p t txs d
    by (rule mineBlock_never[OF s]) (simp add: Block_def Let_def Block_calculateHash_def
        stuck_env_def test_env_def)
  then have n: "mineBlock stuck_env (Suc 0) (Block stuck_env i p t txs d) = None"
    for i p t txs d by simp
  have 3: "transactionThreshold hard_ledger \<le> length (pending_transactions pool_world)
           \<and> minePendingTransactions stuck_env ''miner'' 7 8 hard_ledger pool_world = None"
    by (simp add: minePendingTransactions_def acquireLock_def mine_try_def
        loadPendingTransactionsFromRedis_def command_def hard_ledger_def pool_world_def
        funded_world_def empty_world_def constructed_def Blockchain_def Let_def n
        transactionObjects_def)
  from 1 2 3 show ?thesis by blast
qed

lemmas run_defs =
  minePendingTransactions_def acquireLock_def releaseLock_def mine_try_def
  loadPendingTransactionsFromRedis_def transactionObjects_def command_def
  Block_def Block_calculateHash_def Block_calculateMerkleRoot_def withoutBlockHash_def
  mineBlock_0 Block_save_def db_query_def Transaction_save_def
  removePendingTransactionFromRedis_def hDel_def updateWalletBalance_def client_get_def
  client_set_def Number_add_def round_double_def balance_key_def Blockchain_def
  constructed_def genesis_block_def pool_world_def funded_world_def
  empty_world_def

text \<open>
  C2. The claim is that mining touches no balance entry for a null sender. The loop after
  \<open>save\<close> calls \<open>updateWalletBalance(tx.fromAddress, -tx.amount)\<close> for every transaction
  of the block, the reward transaction included, whose \<open>fromAddress\<close> is \<open>null\<close>: the run on
  the store with two pending transactions ends without an error, with the new block after
  the genesis block and an empty pending hash, and has created the entry
  \<open>wallet_balance_null\<close> with the reward debited.
\<close>

theorem reward_debits_null:
  "balances pool_world ''wallet_balance_null'' = None
   \<and> fst (the (minePendingTransactions test_env ''miner'' 7 8 constructed pool_world)) = Inr ()
   \<and> length (chain (fst (snd (the
         (minePendingTransactions test_env ''miner'' 7 8 constructed pool_world))))) = 2
   \<and> pending_transactions (snd (snd (the
         (minePendingTransactions test_env ''miner'' 7 8 constructed pool_world)))) = []
   \<and> balances (snd (snd (the
         (minePendingTransactions test_env ''miner'' 7 8 constructed pool_world))))
        ''wallet_balance_null'' = Some (- 100)"
  by (simp add: run_defs test_defs Let_def)

end
